theory Spec2Isabelle
  imports Main
begin

section \<open>The snake game of main.py\<close>

text \<open>
  A shallow embedding of the simulation logic of \<^verbatim>\<open>main.py\<close>: the classes
  \<^verbatim>\<open>Snake\<close>, \<^verbatim>\<open>Food\<close> and \<^verbatim>\<open>Game\<close>. Positions and
  directions are Python tuples of two unbounded integers, in pixels. Drawing, the clock and
  the window are input/output and are left out.
\<close>

subsection \<open>Constants\<close>

definition BLOCK_SIZE :: int where
  "BLOCK_SIZE = 20"

definition SCREEN_WIDTH :: int where
  "SCREEN_WIDTH = 800"

definition SCREEN_HEIGHT :: int where
  "SCREEN_HEIGHT = 600"

type_synonym pos = "int \<times> int"

text \<open>The class \<^verbatim>\<open>Direction\<close>: four tuples.\<close>

definition UP :: pos where
  "UP = (0, - BLOCK_SIZE)"

definition DOWN :: pos where
  "DOWN = (0, BLOCK_SIZE)"

definition LEFT :: pos where
  "LEFT = (- BLOCK_SIZE, 0)"

definition RIGHT :: pos where
  "RIGHT = (BLOCK_SIZE, 0)"

subsection \<open>Snake\<close>

datatype error = IndexError

record Snake =
  body :: "pos list"
  direction :: pos
  grow :: bool

text \<open>\<^verbatim>\<open>Snake.__init__\<close>: three segments from the centre of the screen to the left.\<close>

definition Snake_init :: Snake where
  "Snake_init =
     \<lparr> body = [ (SCREEN_WIDTH div 2, SCREEN_HEIGHT div 2),
                (SCREEN_WIDTH div 2 - BLOCK_SIZE, SCREEN_HEIGHT div 2),
                (SCREEN_WIDTH div 2 - 2 * BLOCK_SIZE, SCREEN_HEIGHT div 2) ],
       direction = RIGHT,
       grow = False \<rparr>"

text \<open>
  \<^verbatim>\<open>Snake.move\<close>. Reading \<^verbatim>\<open>self.body[0]\<close> of an empty list raises
  \<^verbatim>\<open>IndexError\<close>. \<^verbatim>\<open>insert(0, new_head)\<close> puts the new head in front,
  \<^verbatim>\<open>pop()\<close> removes the last element of the list that now holds the new head.
\<close>

definition move :: "Snake \<Rightarrow> error + Snake" where
  "move s =
     (case body s of
        [] \<Rightarrow> Inl IndexError
      | h # _ \<Rightarrow>
          (let new_head = (fst h + fst (direction s), snd h + snd (direction s));
               b1 = new_head # body s
           in if \<not> grow s then Inr (s\<lparr>body := butlast b1\<rparr>)
              else Inr (s\<lparr>body := b1, grow := False\<rparr>)))"

text \<open>
  \<^verbatim>\<open>Snake.change_direction\<close>: the \<^verbatim>\<open>match\<close> on the tuple of the two sums
  takes the case \<^verbatim>\<open>(0, 0)\<close> when both sums are zero and the default case otherwise.
\<close>

definition change_direction :: "Snake \<Rightarrow> pos \<Rightarrow> Snake" where
  "change_direction s new_direction =
     (let (current_x, current_y) = direction s;
          (new_x, new_y) = new_direction
      in case (current_x + new_x = 0, current_y + new_y = 0) of
           (True, True) \<Rightarrow> s
         | _ \<Rightarrow> s\<lparr>direction := new_direction\<rparr>)"

text \<open>Python's \<^verbatim>\<open>any\<close> over a tuple of booleans.\<close>

primrec any_py :: "bool list \<Rightarrow> bool" where
  "any_py [] = False"
| "any_py (b # bs) = (if b then True else any_py bs)"

text \<open>\<^verbatim>\<open>Snake.check_collision\<close>; \<^verbatim>\<open>self.body[1:]\<close> is the list without its head.\<close>

definition check_collision :: "Snake \<Rightarrow> error + bool" where
  "check_collision s =
     (case body s of
        [] \<Rightarrow> Inl IndexError
      | head # rest \<Rightarrow>
          Inr (any_py [ head \<in> set rest,
                        fst head < 0,
                        fst head \<ge> SCREEN_WIDTH,
                        snd head < 0,
                        snd head \<ge> SCREEN_HEIGHT ]))"

subsection \<open>Food\<close>

text \<open>
  The random source. \<^verbatim>\<open>random.randint(a, b)\<close> returns some integer \<open>N\<close> with
  \<open>a \<le> N \<le> b\<close>. The generator's state is a list of raw draws, arbitrary integers, and
  each call takes the next one and brings it into the range; a raw draw that already lies
  in the range is returned as it is.
\<close>

definition randint :: "int \<Rightarrow> int \<Rightarrow> int \<Rightarrow> int" where
  "randint a b raw = a + raw mod (b - a + 1)"

record Food =
  position :: pos

text \<open>
  \<^verbatim>\<open>Food.generate_valid_position\<close>: the loop \<^verbatim>\<open>while True\<close> draws two numbers
  per round and returns the first candidate that is not in the snake's body. The list of raw
  draws is the fuel: the result is \<open>None\<close> when the draws are used up and the loop has not
  returned. A result comes with the draws that are left.
\<close>

fun generate_valid_position :: "int list \<Rightarrow> pos list \<Rightarrow> (pos \<times> int list) option" where
  "generate_valid_position (r1 # r2 # rs) snake_body =
     (let x = randint 0 ((SCREEN_WIDTH - BLOCK_SIZE) div BLOCK_SIZE) r1 * BLOCK_SIZE;
          y = randint 0 ((SCREEN_HEIGHT - BLOCK_SIZE) div BLOCK_SIZE) r2 * BLOCK_SIZE
      in if (x, y) \<notin> set snake_body then Some ((x, y), rs)
         else generate_valid_position rs snake_body)"
| "generate_valid_position _ snake_body = None"

text \<open>\<^verbatim>\<open>Food.__init__\<close>.\<close>

definition Food_init :: "int list \<Rightarrow> pos list \<Rightarrow> (Food \<times> int list) option" where
  "Food_init rs snake_body =
     (case generate_valid_position rs snake_body of
        None \<Rightarrow> None
      | Some (p, rs') \<Rightarrow> Some (\<lparr>position = p\<rparr>, rs'))"

text \<open>
  The cells the generator can draw: every pair of a column \<open>0..39\<close> and a row \<open>0..29\<close>,
  scaled by the block size.
\<close>

definition all_cells :: "pos list" where
  "all_cells =
     concat (map (\<lambda>j. map (\<lambda>i. (i * BLOCK_SIZE, j * BLOCK_SIZE))
                          [0 .. (SCREEN_WIDTH - BLOCK_SIZE) div BLOCK_SIZE])
                 [0 .. (SCREEN_HEIGHT - BLOCK_SIZE) div BLOCK_SIZE])"

subsection \<open>Game\<close>

record Game =
  snake :: Snake
  food :: Food
  score :: int
  running :: bool

text \<open>\<^verbatim>\<open>Game.reset\<close>, which \<^verbatim>\<open>Game.__init__\<close> calls.\<close>

definition reset :: "int list \<Rightarrow> (Game \<times> int list) option" where
  "reset rs =
     (case Food_init rs (body Snake_init) of
        None \<Rightarrow> None
      | Some (f, rs') \<Rightarrow>
          Some (\<lparr>snake = Snake_init, food = f, score = 0, running = True\<rparr>, rs'))"

text \<open>The events of one frame, as \<^verbatim>\<open>pygame.event.get()\<close> returns them.\<close>

datatype key = K_UP | K_DOWN | K_LEFT | K_RIGHT | K_ESCAPE | K_OTHER

datatype event = QUIT | KEYDOWN key | OTHER_EVENT

text \<open>One round of the loop of \<^verbatim>\<open>Game.handle_input\<close>.\<close>

fun handle_event :: "Game \<Rightarrow> event \<Rightarrow> Game" where
  "handle_event g QUIT = g\<lparr>running := False\<rparr>"
| "handle_event g (KEYDOWN K_UP) = g\<lparr>snake := change_direction (snake g) UP\<rparr>"
| "handle_event g (KEYDOWN K_DOWN) = g\<lparr>snake := change_direction (snake g) DOWN\<rparr>"
| "handle_event g (KEYDOWN K_LEFT) = g\<lparr>snake := change_direction (snake g) LEFT\<rparr>"
| "handle_event g (KEYDOWN K_RIGHT) = g\<lparr>snake := change_direction (snake g) RIGHT\<rparr>"
| "handle_event g (KEYDOWN K_ESCAPE) = g\<lparr>running := False\<rparr>"
| "handle_event g (KEYDOWN K_OTHER) = g"
| "handle_event g OTHER_EVENT = g"

definition handle_input :: "event list \<Rightarrow> Game \<Rightarrow> Game" where
  "handle_input evs g = foldl handle_event g evs"

text \<open>
  \<^verbatim>\<open>Game.update\<close>. The result is \<open>None\<close> when the food generator does not return,
  \<open>Some (Inl e)\<close> when an exception is raised, and \<open>Some (Inr (g', rs'))\<close> with the new
  state and the draws that are left otherwise. The flag \<^verbatim>\<open>running\<close> is not read.
\<close>

definition update :: "int list \<Rightarrow> Game \<Rightarrow> (error + Game \<times> int list) option" where
  "update rs g =
     (case move (snake g) of
        Inl e \<Rightarrow> Some (Inl e)
      | Inr s1 \<Rightarrow>
          (case body s1 of
             [] \<Rightarrow> Some (Inl IndexError)
           | h # _ \<Rightarrow>
               (case (if h = position (food g)
                      then (case Food_init rs (body s1) of
                              None \<Rightarrow> None
                            | Some (f, rs') \<Rightarrow>
                                Some (g\<lparr>snake := s1\<lparr>grow := True\<rparr>,
                                        score := score g + 1,
                                        food := f\<rparr>, rs'))
                      else Some (g\<lparr>snake := s1\<rparr>, rs)) of
                  None \<Rightarrow> None
                | Some (g2, rs2) \<Rightarrow>
                    (case check_collision (snake g2) of
                       Inl e \<Rightarrow> Some (Inl e)
                     | Inr c \<Rightarrow>
                         Some (Inr (if c then g2\<lparr>running := False\<rparr> else g2, rs2))))))"

text \<open>
  \<^verbatim>\<open>Game.run\<close>: the loop \<^verbatim>\<open>while self.running\<close>, one list of events per frame.
  The frames are the fuel: the result is \<open>None\<close> when they are used up and the game is
  still running, or when an update does not return.
\<close>

fun run :: "event list list \<Rightarrow> int list \<Rightarrow> Game \<Rightarrow> (error + Game \<times> int list) option" where
  "run frames rs g =
     (if \<not> running g then Some (Inr (g, rs))
      else (case frames of
              [] \<Rightarrow> None
            | evs # rest \<Rightarrow>
                (case update rs (handle_input evs g) of
                   None \<Rightarrow> None
                 | Some (Inl e) \<Rightarrow> Some (Inl e)
                 | Some (Inr (g', rs')) \<Rightarrow> run rest rs' g')))"

declare run.simps [simp del]

text \<open>
  The states of a session: the state after \<^verbatim>\<open>reset\<close>, and the state after one more
  round of the loop of \<^verbatim>\<open>run\<close> from a state that is running, for any events and any
  random draws.
\<close>

inductive reachable :: "Game \<Rightarrow> bool" where
  reach_reset: "reset rs = Some (g, rs') \<Longrightarrow> reachable g"
| reach_frame: "reachable g \<Longrightarrow> running g
                \<Longrightarrow> update rs (handle_input evs g) = Some (Inr (g', rs'))
                \<Longrightarrow> reachable g'"

subsection \<open>A full board\<close>

text \<open>
  A path through every cell of the grid, row by row, from left to right in the even rows and
  back in the odd rows; and a game in which the snake lies on all of that path but its first
  cell \<open>(0, 0)\<close>, heads left towards it with growth pending, and the food is on that cell.
\<close>

definition serpentine :: "pos list" where
  "serpentine =
     concat (map (\<lambda>j. map (\<lambda>i. (i * BLOCK_SIZE, j * BLOCK_SIZE))
                          (if even j then [0 .. (SCREEN_WIDTH - BLOCK_SIZE) div BLOCK_SIZE]
                           else rev [0 .. (SCREEN_WIDTH - BLOCK_SIZE) div BLOCK_SIZE]))
                 [0 .. (SCREEN_HEIGHT - BLOCK_SIZE) div BLOCK_SIZE])"

definition full_board_game :: Game where
  "full_board_game =
     \<lparr> snake = \<lparr>body = tl serpentine, direction = LEFT, grow = True\<rparr>,
       food = \<lparr>position = (0, 0)\<rparr>,
       score = 1197,
       running = True \<rparr>"

section \<open>Snake movement\<close>

text \<open>
  C1. For every snake with a non-empty body, \<^verbatim>\<open>move\<close> returns; the new head is the old
  head plus the direction and stands in front of the body. Without pending growth the last
  segment is removed and the length is preserved; with pending growth the whole old body
  follows the new head, the length grows by exactly one, and the flag is reset. The
  direction is never touched.
\<close>

theorem move_advances:
  assumes "body s \<noteq> []"
  shows "\<exists>s'. move s = Inr s'
           \<and> hd (body s') = (fst (hd (body s)) + fst (direction s),
                             snd (hd (body s)) + snd (direction s))
           \<and> (\<not> grow s \<longrightarrow> tl (body s') = butlast (body s)
                              \<and> length (body s') = length (body s))
           \<and> (grow s \<longrightarrow> tl (body s') = body s
                            \<and> length (body s') = length (body s) + 1)
           \<and> \<not> grow s'
           \<and> direction s' = direction s"
proof (cases "body s")
  case Nil
  with assms show ?thesis by simp
next
  case (Cons h t)
  then show ?thesis
    by (cases "grow s") (simp_all add: move_def Let_def)
qed

theorem move_advances_witness:
  "body Snake_init \<noteq> []
   \<and> (\<exists>s'. move Snake_init = Inr s'
          \<and> hd (body s') = (420, 300)
          \<and> tl (body s') = [(400, 300), (380, 300)]
          \<and> length (body s') = 3
          \<and> \<not> grow s')
   \<and> (\<exists>s'. move (Snake_init\<lparr>grow := True\<rparr>) = Inr s'
          \<and> hd (body s') = (420, 300)
          \<and> tl (body s') = [(400, 300), (380, 300), (360, 300)]
          \<and> length (body s') = 4
          \<and> \<not> grow s')"
  using move_advances [of Snake_init] move_advances [of "Snake_init\<lparr>grow := True\<rparr>"]
  by (auto simp add: Snake_init_def SCREEN_WIDTH_def SCREEN_HEIGHT_def BLOCK_SIZE_def RIGHT_def)

section \<open>Turning\<close>

text \<open>
  C2. For every current direction and every requested direction, \<^verbatim>\<open>change_direction\<close>
  sets the direction to the requested one, unless the two directions add up to zero in both
  components, in which case the direction stays as it was. The body and the growth flag are
  not touched.
\<close>

theorem change_direction_turns:
  "direction (change_direction s d) =
     (if fst (direction s) + fst d = 0 \<and> snd (direction s) + snd d = 0
      then direction s else d)
   \<and> body (change_direction s d) = body s
   \<and> grow (change_direction s d) = grow s"
  by (cases "direction s"; cases d) (auto simp add: change_direction_def split: bool.splits)

theorem change_direction_turns_witness:
  "direction (change_direction Snake_init LEFT) = RIGHT
   \<and> direction (change_direction Snake_init UP) = UP
   \<and> direction (change_direction Snake_init RIGHT) = RIGHT
   \<and> direction (change_direction (change_direction Snake_init DOWN) UP) = DOWN
   \<and> body (change_direction Snake_init UP) = body Snake_init"
  using change_direction_turns [of Snake_init LEFT] change_direction_turns [of Snake_init UP]
    change_direction_turns [of Snake_init RIGHT]
    change_direction_turns [of Snake_init DOWN]
    change_direction_turns [of "change_direction Snake_init DOWN" UP]
  by (simp add: Snake_init_def LEFT_def RIGHT_def UP_def DOWN_def BLOCK_SIZE_def)

section \<open>Collision\<close>

text \<open>
  C3. For every snake with a non-empty body, \<^verbatim>\<open>check_collision\<close> returns, and it
  returns true exactly when the head occurs among the segments after the head, or the head
  is outside the screen: its x below 0 or at least the width, its y below 0 or at least the
  height.
\<close>

theorem check_collision_iff:
  assumes "body s \<noteq> []"
  shows "\<exists>c. check_collision s = Inr c
           \<and> (c \<longleftrightarrow> hd (body s) \<in> set (tl (body s))
                    \<or> fst (hd (body s)) < 0 \<or> fst (hd (body s)) \<ge> SCREEN_WIDTH
                    \<or> snd (hd (body s)) < 0 \<or> snd (hd (body s)) \<ge> SCREEN_HEIGHT)"
  using assms by (cases "body s") (auto simp: check_collision_def)

theorem check_collision_iff_witness:
  "check_collision (Snake_init\<lparr>body := [(-20, 300), (0, 300), (20, 300)]\<rparr>) = Inr True
   \<and> check_collision (Snake_init\<lparr>body := [(780, 580), (760, 580)]\<rparr>) = Inr False
   \<and> check_collision (Snake_init\<lparr>body := [(800, 580), (780, 580)]\<rparr>) = Inr True
   \<and> check_collision (Snake_init\<lparr>body := [(780, 600), (780, 580)]\<rparr>) = Inr True
   \<and> check_collision
        (Snake_init\<lparr>body := [(20, 20), (20, 40), (40, 40), (40, 20), (20, 20)]\<rparr>) = Inr True
   \<and> check_collision (Snake_init\<lparr>body := [(0, 0)]\<rparr>) = Inr False"
  using check_collision_iff [of "Snake_init\<lparr>body := [(-20, 300), (0, 300), (20, 300)]\<rparr>"]
    check_collision_iff [of "Snake_init\<lparr>body := [(780, 580), (760, 580)]\<rparr>"]
    check_collision_iff [of "Snake_init\<lparr>body := [(800, 580), (780, 580)]\<rparr>"]
    check_collision_iff [of "Snake_init\<lparr>body := [(780, 600), (780, 580)]\<rparr>"]
    check_collision_iff
      [of "Snake_init\<lparr>body := [(20, 20), (20, 40), (40, 40), (40, 20), (20, 20)]\<rparr>"]
    check_collision_iff [of "Snake_init\<lparr>body := [(0, 0)]\<rparr>"]
  by (auto simp: SCREEN_WIDTH_def SCREEN_HEIGHT_def)

section \<open>Auxiliary facts\<close>

subsection \<open>The random source and the food generator\<close>

lemma randint_range: "a \<le> b \<Longrightarrow> a \<le> randint a b raw \<and> randint a b raw \<le> b"
  using pos_mod_bound [of "b - a + 1" raw] pos_mod_sign [of "b - a + 1" raw]
  by (simp add: randint_def)

lemma randint_id: "a \<le> v \<Longrightarrow> v \<le> b \<Longrightarrow> randint a b (v - a) = v"
  by (simp add: randint_def)

lemma set_all_cells:
  "set all_cells = {(i * 20, j * 20) | i j. 0 \<le> i \<and> i \<le> 39 \<and> 0 \<le> j \<and> j \<le> 29}"
  by (auto simp: all_cells_def BLOCK_SIZE_def SCREEN_WIDTH_def SCREEN_HEIGHT_def)

lemma candidate_in_all_cells:
  "(randint 0 ((SCREEN_WIDTH - BLOCK_SIZE) div BLOCK_SIZE) r1 * BLOCK_SIZE,
    randint 0 ((SCREEN_HEIGHT - BLOCK_SIZE) div BLOCK_SIZE) r2 * BLOCK_SIZE) \<in> set all_cells"
  using randint_range [of 0 39 r1] randint_range [of 0 29 r2]
  by (simp add: set_all_cells BLOCK_SIZE_def SCREEN_WIDTH_def SCREEN_HEIGHT_def)

lemma generate_Some:
  "generate_valid_position rs b = Some (p, rs') \<Longrightarrow>
     p \<notin> set b \<and> p \<in> set all_cells \<and> length rs' < length rs"
proof (induction rs b rule: generate_valid_position.induct)
  case (1 r1 r2 rs snake_body)
  show ?case
  proof (cases "(randint 0 ((SCREEN_WIDTH - BLOCK_SIZE) div BLOCK_SIZE) r1 * BLOCK_SIZE,
                 randint 0 ((SCREEN_HEIGHT - BLOCK_SIZE) div BLOCK_SIZE) r2 * BLOCK_SIZE)
                \<in> set snake_body")
    case True
    with "1.prems" have "generate_valid_position rs snake_body = Some (p, rs')"
      by (simp add: Let_def)
    with "1.IH" [OF refl refl] True show ?thesis by simp
  next
    case False
    with "1.prems" candidate_in_all_cells [of r1 r2] show ?thesis
      by (auto simp: Let_def)
  qed
qed simp_all

lemma generate_full_board:
  "set all_cells \<subseteq> set b \<Longrightarrow> generate_valid_position rs b = None"
  using generate_Some [of rs b] by (cases "generate_valid_position rs b") auto

lemma generate_free_cell:
  assumes "p \<in> set all_cells" "p \<notin> set b"
  shows "generate_valid_position (fst p div BLOCK_SIZE # snd p div BLOCK_SIZE # rs) b = Some (p, rs)"
  using assms
  by (auto simp: set_all_cells Let_def randint_def BLOCK_SIZE_def SCREEN_WIDTH_def SCREEN_HEIGHT_def)

subsection \<open>The snake and one update\<close>

lemma move_Inr:
  "move s = Inr s' \<longleftrightarrow>
     (\<exists>h t. body s = h # t
        \<and> s' = s\<lparr>body := (fst h + fst (direction s), snd h + snd (direction s))
                          # (if grow s then body s else butlast (body s)),
                  grow := False\<rparr>)"
  by (cases "body s"; cases "grow s") (auto simp: move_def Let_def)

lemma check_collision_Inr:
  "check_collision s = Inr c \<longleftrightarrow>
     (\<exists>h t. body s = h # t
        \<and> c = (h \<in> set t \<or> fst h < 0 \<or> fst h \<ge> SCREEN_WIDTH
                \<or> snd h < 0 \<or> snd h \<ge> SCREEN_HEIGHT))"
  by (cases "body s") (auto simp: check_collision_def)

lemma update_cases:
  assumes "update rs g = Some (Inr (g', rs'))"
  shows "\<exists>s1 c. move (snake g) = Inr s1 \<and> check_collision s1 = Inr c
           \<and> ((hd (body s1) = position (food g)
                \<and> (\<exists>p. generate_valid_position rs (body s1) = Some (p, rs')
                       \<and> g' = g\<lparr>snake := s1\<lparr>grow := True\<rparr>, score := score g + 1,
                                food := \<lparr>position = p\<rparr>, running := running g \<and> \<not> c\<rparr>))
              \<or> (hd (body s1) \<noteq> position (food g) \<and> rs' = rs
                  \<and> g' = g\<lparr>snake := s1, running := running g \<and> \<not> c\<rparr>))"
  using assms
  by (auto simp: update_def Food_init_def check_collision_def
           split: sum.splits list.splits option.splits if_splits)

lemma update_no_food:
  assumes "move (snake g) = Inr s1" "hd (body s1) \<noteq> position (food g)"
  shows "\<exists>c. check_collision s1 = Inr c
           \<and> update rs g = Some (Inr (g\<lparr>snake := s1, running := running g \<and> \<not> c\<rparr>, rs))"
proof -
  from assms(1) obtain h t where b: "body s1 = h # t"
    by (auto simp: move_Inr)
  with assms show ?thesis
    by (auto simp: update_def check_collision_def)
qed

lemma update_food:
  assumes "move (snake g) = Inr s1" "hd (body s1) = position (food g)"
  shows "update rs g =
           (case generate_valid_position rs (body s1) of
              None \<Rightarrow> None
            | Some (p, rs') \<Rightarrow>
                Some (Inr (g\<lparr>snake := s1\<lparr>grow := True\<rparr>, score := score g + 1,
                             food := \<lparr>position = p\<rparr>,
                             running := running g \<and> hd (body s1) \<notin> set (tl (body s1))
                                \<and> 0 \<le> fst (hd (body s1)) \<and> fst (hd (body s1)) < SCREEN_WIDTH
                                \<and> 0 \<le> snd (hd (body s1)) \<and> snd (hd (body s1)) < SCREEN_HEIGHT\<rparr>, rs')))"
proof -
  from assms(1) obtain h t where b: "body s1 = h # t"
    by (auto simp: move_Inr)
  with assms show ?thesis
    by (auto simp: update_def Food_init_def check_collision_def split: option.splits)
qed

lemma update_returns:
  assumes "body (snake g) \<noteq> []"
  shows "\<exists>s1. move (snake g) = Inr s1
           \<and> (hd (body s1) \<noteq> position (food g) \<longrightarrow>
                (\<exists>g1. update rs g = Some (Inr (g1, rs))))
           \<and> (hd (body s1) = position (food g) \<longrightarrow>
                (generate_valid_position rs (body s1) = None \<longrightarrow> update rs g = None)
                \<and> (\<forall>p r. generate_valid_position rs (body s1) = Some (p, r) \<longrightarrow>
                      (\<exists>g1. update rs g = Some (Inr (g1, r)))))"
proof -
  from assms obtain s1 where m: "move (snake g) = Inr s1"
    by (cases "body (snake g)") (auto simp: move_Inr)
  have a: "hd (body s1) \<noteq> position (food g) \<Longrightarrow> \<exists>g1. update rs g = Some (Inr (g1, rs))"
    using update_no_food [OF m, of rs] by blast
  have b: "hd (body s1) = position (food g) \<Longrightarrow>
             generate_valid_position rs (body s1) = None \<Longrightarrow> update rs g = None"
    using update_food [OF m, of rs] by simp
  have c: "hd (body s1) = position (food g) \<Longrightarrow>
             generate_valid_position rs (body s1) = Some (p, r) \<Longrightarrow>
             \<exists>g1. update rs g = Some (Inr (g1, r))" for p r
    using update_food [OF m, of rs] by simp
  show ?thesis
    by (rule exI [of _ s1]) (use m a b c in auto)
qed

subsection \<open>Input handling\<close>

lemma handle_event_frame:
  "body (snake (handle_event g e)) = body (snake g)
   \<and> grow (snake (handle_event g e)) = grow (snake g)
   \<and> food (handle_event g e) = food g
   \<and> score (handle_event g e) = score g
   \<and> (running (handle_event g e) \<longrightarrow> running g)"
  by (cases "(g, e)" rule: handle_event.cases) (simp_all add: change_direction_def split: prod.splits bool.splits)

lemma handle_input_frame:
  "body (snake (handle_input evs g)) = body (snake g)
   \<and> grow (snake (handle_input evs g)) = grow (snake g)
   \<and> food (handle_input evs g) = food g
   \<and> score (handle_input evs g) = score g
   \<and> (running (handle_input evs g) \<longrightarrow> running g)"
  unfolding handle_input_def
proof (induction evs arbitrary: g)
  case Nil
  show ?case by simp
next
  case (Cons e evs)
  show ?case using Cons [of "handle_event g e"] handle_event_frame [of g e] by simp
qed

lemma update_shape:
  assumes "update rs g = Some (Inr (g', rs'))"
  shows "\<exists>s1 c. move (snake g) = Inr s1 \<and> check_collision s1 = Inr c
           \<and> body (snake g') = body s1
           \<and> running g' = (running g \<and> \<not> c)"
proof -
  from update_cases [OF assms] obtain s1 c where m: "move (snake g) = Inr s1"
    and c: "check_collision s1 = Inr c"
    and d: "(\<exists>p. g' = g\<lparr>snake := s1\<lparr>grow := True\<rparr>, score := score g + 1,
                         food := \<lparr>position = p\<rparr>, running := running g \<and> \<not> c\<rparr>)
            \<or> g' = g\<lparr>snake := s1, running := running g \<and> \<not> c\<rparr>"
    by blast
  from d have "body (snake g') = body s1 \<and> running g' = (running g \<and> \<not> c)"
    by (elim disjE exE) simp_all
  with m c show ?thesis by blast
qed

lemma check_collision_body:
  "body s = body s' \<Longrightarrow> check_collision s = check_collision s'"
  by (simp add: check_collision_def)

text \<open>
  A snake of four segments that runs round a square of four cells: its next head is the cell
  of its last segment. One update without and one with pending growth.
\<close>

lemma square_step_plain:
  "update [] \<lparr>snake = \<lparr>body = [(20, 20), (20, 40), (40, 40), (40, 20)],
                        direction = RIGHT, grow = False\<rparr>,
              food = \<lparr>position = (100, 100)\<rparr>, score = 1, running = True\<rparr>
     = Some (Inr (\<lparr>snake = \<lparr>body = [(40, 20), (20, 20), (20, 40), (40, 40)],
                             direction = RIGHT, grow = False\<rparr>,
                    food = \<lparr>position = (100, 100)\<rparr>, score = 1, running = True\<rparr>, []))"
  by (simp add: update_def move_def check_collision_def RIGHT_def BLOCK_SIZE_def
        SCREEN_WIDTH_def SCREEN_HEIGHT_def)


lemma square_step_growing:
  "update [] \<lparr>snake = \<lparr>body = [(20, 20), (20, 40), (40, 40), (40, 20)],
                          direction = RIGHT, grow = True\<rparr>,
                food = \<lparr>position = (100, 100)\<rparr>, score = 1, running = True\<rparr>
     = Some (Inr (\<lparr>snake = \<lparr>body = [(40, 20), (20, 20), (20, 40), (40, 40), (40, 20)],
                             direction = RIGHT, grow = False\<rparr>,
                    food = \<lparr>position = (100, 100)\<rparr>, score = 1, running = False\<rparr>, []))"
  by (simp add: update_def move_def check_collision_def RIGHT_def BLOCK_SIZE_def
        SCREEN_WIDTH_def SCREEN_HEIGHT_def)

section \<open>The head on the cell of the tail\<close>

text \<open>
  C4. A snake of length at least 2 makes a step (\<^verbatim>\<open>update\<close>) whose new head is the cell
  of its last segment. Without pending growth, when no other segment is on that cell (the
  cell is vacated by the step) and the cell is on the screen, the last segment is gone before
  the collision check, the check returns false and the game keeps running. With pending
  growth the last segment is kept, the check returns true and the game stops.
\<close>

theorem tail_chase:
  assumes "2 \<le> length (body (snake g))"
    and "update rs g = Some (Inr (g', rs'))"
    and "hd (body (snake g')) = last (body (snake g))"
  shows "(\<not> grow (snake g)
          \<and> last (body (snake g)) \<notin> set (butlast (body (snake g)))
          \<and> 0 \<le> fst (last (body (snake g))) \<and> fst (last (body (snake g))) < SCREEN_WIDTH
          \<and> 0 \<le> snd (last (body (snake g))) \<and> snd (last (body (snake g))) < SCREEN_HEIGHT
          \<longrightarrow> tl (body (snake g')) = butlast (body (snake g))
              \<and> check_collision (snake g') = Inr False
              \<and> running g' = running g)
       \<and> (grow (snake g)
          \<longrightarrow> tl (body (snake g')) = body (snake g)
              \<and> check_collision (snake g') = Inr True
              \<and> \<not> running g')"
proof -
  let ?b = "body (snake g)"
  from update_shape [OF assms(2)] obtain s1 c where m: "move (snake g) = Inr s1"
    and c: "check_collision s1 = Inr c"
    and b: "body (snake g') = body s1"
    and r: "running g' = (running g \<and> \<not> c)"
    by blast
  from m obtain nh where s1: "body s1 = nh # (if grow (snake g) then ?b else butlast ?b)"
    and ne: "?b \<noteq> []"
    by (auto simp: move_Inr)
  from assms(3) b s1 have nh: "nh = last ?b" by simp
  have cc: "check_collision (snake g') = Inr c"
    using c check_collision_body [OF b] by simp
  have cv: "c = (nh \<in> set (if grow (snake g) then ?b else butlast ?b)
                 \<or> fst nh < 0 \<or> fst nh \<ge> SCREEN_WIDTH \<or> snd nh < 0 \<or> snd nh \<ge> SCREEN_HEIGHT)"
    using c s1 by (auto simp: check_collision_Inr)
  have mem: "last ?b \<in> set ?b" using ne by (rule last_in_set)
  show ?thesis
  proof (intro conjI impI)
    assume a: "\<not> grow (snake g)
          \<and> last ?b \<notin> set (butlast ?b)
          \<and> 0 \<le> fst (last ?b) \<and> fst (last ?b) < SCREEN_WIDTH
          \<and> 0 \<le> snd (last ?b) \<and> snd (last ?b) < SCREEN_HEIGHT"
    then have nc: "\<not> c" using cv nh by simp
    show "tl (body (snake g')) = butlast ?b" using a b s1 by simp
    show "check_collision (snake g') = Inr False" using cc nc by simp
    show "running g' = running g" using r nc by simp
  next
    assume a: "grow (snake g)"
    then have yc: "c" using cv nh mem by simp
    show "tl (body (snake g')) = ?b" using a b s1 by simp
    show "check_collision (snake g') = Inr True" using cc yc by simp
    show "\<not> running g'" using r yc by simp
  qed
qed

theorem tail_chase_witness:
  "2 \<le> length ([(20, 20), (20, 40), (40, 40), (40, 20)] :: pos list)
   \<and> ((40, 20) :: pos) \<notin> set (butlast [(20, 20), (20, 40), (40, 40), (40, 20)])
   \<and> check_collision \<lparr>body = [(40, 20), (20, 20), (20, 40), (40, 40)],
                       direction = RIGHT, grow = False\<rparr> = Inr False
   \<and> check_collision \<lparr>body = [(40, 20), (20, 20), (20, 40), (40, 40), (40, 20)],
                       direction = RIGHT, grow = False\<rparr> = Inr True"
  using tail_chase [OF _ square_step_plain] tail_chase [OF _ square_step_growing]
  by (simp add: SCREEN_WIDTH_def SCREEN_HEIGHT_def)

section \<open>Eating and the score\<close>

lemma update_score_mono:
  "update rs g = Some (Inr (g', rs')) \<Longrightarrow> score g \<le> score g'"
  using update_cases [of rs g g' rs'] by auto

lemma run_score_mono:
  "run frames rs g = Some (Inr (g', rs')) \<Longrightarrow> score g \<le> score g'"
proof (induction frames rs g rule: run.induct)
  case (1 frames rs g)
  show ?case
  proof (cases "running g")
    case False
    with "1.prems" show ?thesis by (simp add: run.simps [of frames rs g])
  next
    case True
    with "1.prems" obtain evs rest g1 rs1 where fr: "frames = evs # rest"
      and u: "update rs (handle_input evs g) = Some (Inr (g1, rs1))"
      and r: "run rest rs1 g1 = Some (Inr (g', rs'))"
      by (auto simp: run.simps [of frames rs g] split: list.splits option.splits sum.splits)
    from "1.IH" [OF _ fr u refl refl r] True have "score g1 \<le> score g'" by simp
    moreover from update_score_mono [OF u] have "score g \<le> score g1"
      by (simp add: handle_input_frame)
    ultimately show ?thesis by simp
  qed
qed

text \<open>
  The first snake with the food right in front of its head, and with the food elsewhere; and a
  session of two frames in which the snake eats and the player then quits.
\<close>

lemma eat_step:
  "update [5, 7] \<lparr>snake = Snake_init, food = \<lparr>position = (420, 300)\<rparr>,
                   score = 0, running = True\<rparr>
     = Some (Inr (\<lparr>snake = \<lparr>body = [(420, 300), (400, 300), (380, 300)],
                             direction = RIGHT, grow = True\<rparr>,
                    food = \<lparr>position = (100, 140)\<rparr>, score = 1, running = True\<rparr>, []))"
  by (simp add: update_def move_def check_collision_def Food_init_def Snake_init_def
        randint_def RIGHT_def BLOCK_SIZE_def SCREEN_WIDTH_def SCREEN_HEIGHT_def)

lemma plain_step:
  "update [5, 7] \<lparr>snake = Snake_init, food = \<lparr>position = (100, 100)\<rparr>,
                   score = 0, running = True\<rparr>
     = Some (Inr (\<lparr>snake = \<lparr>body = [(420, 300), (400, 300), (380, 300)],
                             direction = RIGHT, grow = False\<rparr>,
                    food = \<lparr>position = (100, 100)\<rparr>, score = 0, running = True\<rparr>, [5, 7]))"
  by (simp add: update_def move_def check_collision_def Food_init_def Snake_init_def
        randint_def RIGHT_def BLOCK_SIZE_def SCREEN_WIDTH_def SCREEN_HEIGHT_def)

lemma eat_then_quit:
  "run [[], [QUIT]] [5, 7] \<lparr>snake = Snake_init, food = \<lparr>position = (420, 300)\<rparr>,
                            score = 0, running = True\<rparr>
     = Some (Inr (\<lparr>snake = \<lparr>body = [(440, 300), (420, 300), (400, 300), (380, 300)],
                             direction = RIGHT, grow = False\<rparr>,
                    food = \<lparr>position = (100, 140)\<rparr>, score = 1, running = False\<rparr>, []))"
  by (simp add: run.simps handle_input_def eat_step)
     (simp add: run.simps update_def move_def check_collision_def RIGHT_def
        SCREEN_WIDTH_def SCREEN_HEIGHT_def BLOCK_SIZE_def)

text \<open>
  C5. In every step (\<^verbatim>\<open>update\<close>) that returns: if the head after the move is on the
  food, the growth flag is set, the score goes up by exactly 1 and the food is replaced by a
  new position, different from the old one and outside the body; otherwise the growth flag
  is clear, the score and the food are as before and no random number is drawn. So the score
  never goes down in a step, nor over a whole run of the main loop. A step of a snake with a
  non-empty body always returns when the head does not reach the food; when it does, the
  step returns exactly when the food generator returns.
\<close>

theorem food_step:
  "(update rs g = Some (Inr (g', rs')) \<longrightarrow>
      (hd (body (snake g')) = position (food g) \<longrightarrow>
         grow (snake g') \<and> score g' = score g + 1
         \<and> position (food g') \<noteq> position (food g)
         \<and> position (food g') \<notin> set (body (snake g')))
    \<and> (hd (body (snake g')) \<noteq> position (food g) \<longrightarrow>
         \<not> grow (snake g') \<and> score g' = score g \<and> food g' = food g \<and> rs' = rs)
    \<and> score g \<le> score g')
   \<and> (run frames rs g = Some (Inr (g'', rs'')) \<longrightarrow> score g \<le> score g'')
   \<and> (body (snake g) \<noteq> [] \<longrightarrow>
        (\<exists>s1. move (snake g) = Inr s1
           \<and> (hd (body s1) \<noteq> position (food g) \<longrightarrow>
                (\<exists>g1. update rs g = Some (Inr (g1, rs))))
           \<and> (hd (body s1) = position (food g) \<longrightarrow>
                (generate_valid_position rs (body s1) = None \<longrightarrow> update rs g = None)
                \<and> (\<forall>p r. generate_valid_position rs (body s1) = Some (p, r) \<longrightarrow>
                      (\<exists>g1. update rs g = Some (Inr (g1, r)))))))"
proof (intro conjI impI)
  assume u: "update rs g = Some (Inr (g', rs'))"
  from update_cases [OF u] obtain s1 c where m: "move (snake g) = Inr s1"
    and d: "(hd (body s1) = position (food g)
                \<and> (\<exists>p. generate_valid_position rs (body s1) = Some (p, rs')
                       \<and> g' = g\<lparr>snake := s1\<lparr>grow := True\<rparr>, score := score g + 1,
                                food := \<lparr>position = p\<rparr>, running := running g \<and> \<not> c\<rparr>))
              \<or> (hd (body s1) \<noteq> position (food g) \<and> rs' = rs
                  \<and> g' = g\<lparr>snake := s1, running := running g \<and> \<not> c\<rparr>)"
    by blast
  from m have g1: "\<not> grow s1" and ne: "body s1 \<noteq> []" by (auto simp: move_Inr)
  {
    assume e: "hd (body (snake g')) = position (food g)"
    with d obtain p where p: "generate_valid_position rs (body s1) = Some (p, rs')"
      and g': "g' = g\<lparr>snake := s1\<lparr>grow := True\<rparr>, score := score g + 1,
                                food := \<lparr>position = p\<rparr>, running := running g \<and> \<not> c\<rparr>"
      and h: "hd (body s1) = position (food g)"
      by auto
    from generate_Some [OF p] have pn: "p \<notin> set (body s1)" by simp
    from h ne have "position (food g) \<in> set (body s1)" by (metis hd_in_set)
    with pn have "p \<noteq> position (food g)" by auto
    with g' pn show "grow (snake g')" "score g' = score g + 1"
      "position (food g') \<noteq> position (food g)"
      "position (food g') \<notin> set (body (snake g'))"
      by simp_all
  }
  {
    assume e: "hd (body (snake g')) \<noteq> position (food g)"
    with d have "rs' = rs \<and> g' = g\<lparr>snake := s1, running := running g \<and> \<not> c\<rparr>" by auto
    with g1 show "\<not> grow (snake g')" "score g' = score g" "food g' = food g" "rs' = rs"
      by simp_all
  }
  show "score g \<le> score g'" using u by (rule update_score_mono)
next
  assume "run frames rs g = Some (Inr (g'', rs''))"
  then show "score g \<le> score g''" by (rule run_score_mono)
next
  assume "body (snake g) \<noteq> []"
  then show "\<exists>s1. move (snake g) = Inr s1
           \<and> (hd (body s1) \<noteq> position (food g) \<longrightarrow>
                (\<exists>g1. update rs g = Some (Inr (g1, rs))))
           \<and> (hd (body s1) = position (food g) \<longrightarrow>
                (generate_valid_position rs (body s1) = None \<longrightarrow> update rs g = None)
                \<and> (\<forall>p r. generate_valid_position rs (body s1) = Some (p, r) \<longrightarrow>
                      (\<exists>g1. update rs g = Some (Inr (g1, r)))))"
    by (rule update_returns)
qed

theorem food_step_witness:
  "update [5, 7] \<lparr>snake = Snake_init, food = \<lparr>position = (420, 300)\<rparr>,
                   score = 0, running = True\<rparr>
     = Some (Inr (\<lparr>snake = \<lparr>body = [(420, 300), (400, 300), (380, 300)],
                             direction = RIGHT, grow = True\<rparr>,
                    food = \<lparr>position = (100, 140)\<rparr>, score = 1, running = True\<rparr>, []))
   \<and> (1 :: int) = 0 + 1
   \<and> ((100, 140) :: pos) \<noteq> (420, 300)
   \<and> ((100, 140) :: pos) \<notin> set [(420, 300), (400, 300), (380, 300)]
   \<and> update [5, 7] \<lparr>snake = Snake_init, food = \<lparr>position = (100, 100)\<rparr>,
                     score = 0, running = True\<rparr>
     = Some (Inr (\<lparr>snake = \<lparr>body = [(420, 300), (400, 300), (380, 300)],
                             direction = RIGHT, grow = False\<rparr>,
                    food = \<lparr>position = (100, 100)\<rparr>, score = 0, running = True\<rparr>, [5, 7]))
   \<and> run [[], [QUIT]] [5, 7] \<lparr>snake = Snake_init, food = \<lparr>position = (420, 300)\<rparr>,
                              score = 0, running = True\<rparr>
     = Some (Inr (\<lparr>snake = \<lparr>body = [(440, 300), (420, 300), (400, 300), (380, 300)],
                             direction = RIGHT, grow = False\<rparr>,
                    food = \<lparr>position = (100, 140)\<rparr>, score = 1, running = False\<rparr>, []))
   \<and> (0 :: int) \<le> 1"
  using food_step [of "[5, 7]"
      "\<lparr>snake = Snake_init, food = \<lparr>position = (420, 300)\<rparr>, score = 0, running = True\<rparr>"
      "\<lparr>snake = \<lparr>body = [(420, 300), (400, 300), (380, 300)],
                direction = RIGHT, grow = True\<rparr>,
        food = \<lparr>position = (100, 140)\<rparr>, score = 1, running = True\<rparr>" "[]"
      "[[], [QUIT]]"
      "\<lparr>snake = \<lparr>body = [(440, 300), (420, 300), (400, 300), (380, 300)],
                direction = RIGHT, grow = False\<rparr>,
        food = \<lparr>position = (100, 140)\<rparr>, score = 1, running = False\<rparr>" "[]"]
    food_step [of "[5, 7]"
      "\<lparr>snake = Snake_init, food = \<lparr>position = (100, 100)\<rparr>, score = 0, running = True\<rparr>"
      "\<lparr>snake = \<lparr>body = [(420, 300), (400, 300), (380, 300)],
                direction = RIGHT, grow = False\<rparr>,
        food = \<lparr>position = (100, 100)\<rparr>, score = 0, running = True\<rparr>" "[5, 7]"]
    eat_step plain_step eat_then_quit
  by simp

section \<open>What holds in every state of a session\<close>

lemma update_body:
  assumes "update rs g = Some (Inr (g', rs'))"
  shows "\<exists>h t nh c. body (snake g) = h # t
           \<and> nh = (fst h + fst (direction (snake g)), snd h + snd (direction (snake g)))
           \<and> body (snake g') = nh # (if grow (snake g) then h # t else butlast (h # t))
           \<and> check_collision (snake g') = Inr c
           \<and> running g' = (running g \<and> \<not> c)"
proof -
  from update_shape [OF assms] obtain s1 c where m: "move (snake g) = Inr s1"
    and c: "check_collision s1 = Inr c"
    and b: "body (snake g') = body s1"
    and r: "running g' = (running g \<and> \<not> c)"
    by blast
  from m obtain h t where ht: "body (snake g) = h # t"
    and s1: "body s1 = (fst h + fst (direction (snake g)), snd h + snd (direction (snake g)))
               # (if grow (snake g) then body (snake g) else butlast (body (snake g)))"
    by (auto simp: move_Inr)
  have "check_collision (snake g') = Inr c"
    using c check_collision_body [OF b] by simp
  with ht s1 b r show ?thesis by simp
qed

lemma update_food_free:
  assumes u: "update rs g = Some (Inr (g', rs'))"
    and f: "position (food g) \<notin> set (body (snake g))"
  shows "position (food g') \<notin> set (body (snake g'))"
proof -
  from update_cases [OF u] obtain s1 c where m: "move (snake g) = Inr s1"
    and d: "(hd (body s1) = position (food g)
                \<and> (\<exists>p. generate_valid_position rs (body s1) = Some (p, rs')
                       \<and> g' = g\<lparr>snake := s1\<lparr>grow := True\<rparr>, score := score g + 1,
                                food := \<lparr>position = p\<rparr>, running := running g \<and> \<not> c\<rparr>))
              \<or> (hd (body s1) \<noteq> position (food g) \<and> rs' = rs
                  \<and> g' = g\<lparr>snake := s1, running := running g \<and> \<not> c\<rparr>)"
    by blast
  from m obtain nh where s1: "body s1 = nh # (if grow (snake g) then body (snake g)
                                               else butlast (body (snake g)))"
    by (auto simp: move_Inr)
  from d show ?thesis
  proof (elim disjE conjE exE)
    fix p
    assume p: "generate_valid_position rs (body s1) = Some (p, rs')"
      and g': "g' = g\<lparr>snake := s1\<lparr>grow := True\<rparr>, score := score g + 1,
                      food := \<lparr>position = p\<rparr>, running := running g \<and> \<not> c\<rparr>"
    from generate_Some [OF p] g' show ?thesis by simp
  next
    assume h: "hd (body s1) \<noteq> position (food g)"
      and g': "g' = g\<lparr>snake := s1, running := running g \<and> \<not> c\<rparr>"
    from f have "position (food g) \<notin> set (butlast (body (snake g)))"
      by (auto dest: in_set_butlastD)
    with f h s1 g' show ?thesis by auto
  qed
qed

lemma reset_Some:
  "reset rs = Some (g, rs') \<Longrightarrow>
     snake g = Snake_init \<and> running g \<and> score g = 0
     \<and> position (food g) \<notin> set (body Snake_init)"
  using generate_Some [of rs "body Snake_init"]
  by (auto simp: reset_def Food_init_def split: option.splits)

lemma Snake_init_live:
  "body Snake_init = [(400, 300), (380, 300), (360, 300)]
   \<and> check_collision Snake_init = Inr False"
  by (simp add: Snake_init_def check_collision_def SCREEN_WIDTH_def SCREEN_HEIGHT_def
      BLOCK_SIZE_def)

lemma reachable_inv:
  "reachable g \<Longrightarrow>
     body (snake g) \<noteq> []
     \<and> distinct (tl (body (snake g)))
     \<and> (running g \<longrightarrow> check_collision (snake g) = Inr False)
     \<and> position (food g) \<notin> set (body (snake g))"
proof (induction rule: reachable.induct)
  case (reach_reset rs g rs')
  from reset_Some [OF reach_reset] Snake_init_live show ?case by simp
next
  case (reach_frame g rs evs g' rs')
  let ?g1 = "handle_input evs g"
  have b1: "body (snake ?g1) = body (snake g)" and f1: "food ?g1 = food g"
    by (simp_all add: handle_input_frame)
  from reach_frame.IH reach_frame.hyps(2)
  have cf: "check_collision (snake g) = Inr False" and dt: "distinct (tl (body (snake g)))"
    and ff: "position (food g) \<notin> set (body (snake g))"
    by simp_all
  from cf dt have d: "distinct (body (snake g))"
    by (auto simp: check_collision_Inr)
  from update_body [OF reach_frame.hyps(3)] obtain h t nh c
    where ht1: "body (snake ?g1) = h # t"
      and b': "body (snake g') = nh # (if grow (snake ?g1) then h # t else butlast (h # t))"
      and c: "check_collision (snake g') = Inr c"
      and r: "running g' = (running ?g1 \<and> \<not> c)"
    by blast
  from ht1 b1 have ht: "body (snake g) = h # t" by simp
  from d ht have "distinct (h # t)" by simp
  then have "distinct (butlast (h # t))" by (rule distinct_butlast)
  with d ht b' have 1: "distinct (tl (body (snake g')))" by simp
  from b' have 2: "body (snake g') \<noteq> []" by simp
  from c r have 3: "running g' \<longrightarrow> check_collision (snake g') = Inr False" by auto
  from update_food_free [OF reach_frame.hyps(3)] ff b1 f1
  have 4: "position (food g') \<notin> set (body (snake g'))" by simp
  from 1 2 3 4 show ?case by simp
qed

section \<open>Food placement\<close>

text \<open>
  A first food right in front of the snake, and the state one frame later, after the snake
  has eaten it.
\<close>

lemma first_food:
  "reset [21, 15] = Some (\<lparr>snake = Snake_init, food = \<lparr>position = (420, 300)\<rparr>,
                            score = 0, running = True\<rparr>, [])"
  by (simp add: reset_def Food_init_def Snake_init_def randint_def
      BLOCK_SIZE_def SCREEN_WIDTH_def SCREEN_HEIGHT_def)

lemma reachable_after_eating:
  "reachable \<lparr>snake = \<lparr>body = [(420, 300), (400, 300), (380, 300)],
                        direction = RIGHT, grow = True\<rparr>,
              food = \<lparr>position = (100, 140)\<rparr>, score = 1, running = True\<rparr>"
proof -
  let ?g0 = "\<lparr>snake = Snake_init, food = \<lparr>position = (420, 300)\<rparr>,
               score = 0, running = True\<rparr>"
  have r0: "reachable ?g0" using first_food by (rule reach_reset)
  have u: "update [5, 7] (handle_input [] ?g0)
             = Some (Inr (\<lparr>snake = \<lparr>body = [(420, 300), (400, 300), (380, 300)],
                                     direction = RIGHT, grow = True\<rparr>,
                            food = \<lparr>position = (100, 140)\<rparr>, score = 1, running = True\<rparr>, []))"
    using eat_step by (simp add: handle_input_def)
  from r0 _ u show ?thesis by (rule reach_frame) simp
qed

text \<open>
  C6. Every position that \<^verbatim>\<open>generate_valid_position\<close> returns is not in the body it was
  given. So the food of a new game is not in the body of the new snake, and in every state
  of a session, running or not, the food is not in the body of the snake. The generator does
  return: every free cell of the grid is returned for suitable draws.
\<close>

theorem food_outside_body:
  "(generate_valid_position rs b = Some (p, rs') \<longrightarrow> p \<notin> set b)
   \<and> (reset rs = Some (g0, rs0) \<longrightarrow> position (food g0) \<notin> set (body (snake g0)))
   \<and> (reachable g \<longrightarrow> position (food g) \<notin> set (body (snake g)))
   \<and> (q \<in> set all_cells \<and> q \<notin> set b \<longrightarrow>
        generate_valid_position (fst q div BLOCK_SIZE # snd q div BLOCK_SIZE # rs2) b
          = Some (q, rs2))"
proof (intro conjI impI)
  assume "generate_valid_position rs b = Some (p, rs')"
  from generate_Some [OF this] show "p \<notin> set b" by simp
next
  assume "reset rs = Some (g0, rs0)"
  from reset_Some [OF this] show "position (food g0) \<notin> set (body (snake g0))" by simp
next
  assume "reachable g"
  from reachable_inv [OF this] show "position (food g) \<notin> set (body (snake g))" by simp
next
  assume "q \<in> set all_cells \<and> q \<notin> set b"
  then show "generate_valid_position (fst q div BLOCK_SIZE # snd q div BLOCK_SIZE # rs2) b
               = Some (q, rs2)"
    by (intro generate_free_cell) simp_all
qed

theorem food_outside_body_witness:
  "generate_valid_position [20, 15, 5, 7] [(400, 300), (380, 300), (360, 300)]
     = Some ((100, 140), [])
   \<and> ((100, 140) :: pos) \<notin> set [(400, 300), (380, 300), (360, 300)]
   \<and> reset [21, 15] = Some (\<lparr>snake = Snake_init, food = \<lparr>position = (420, 300)\<rparr>,
                              score = 0, running = True\<rparr>, [])
   \<and> ((420, 300) :: pos) \<notin> set (body Snake_init)
   \<and> reachable \<lparr>snake = \<lparr>body = [(420, 300), (400, 300), (380, 300)],
                          direction = RIGHT, grow = True\<rparr>,
                food = \<lparr>position = (100, 140)\<rparr>, score = 1, running = True\<rparr>
   \<and> ((100, 140) :: pos) \<notin> set [(420, 300), (400, 300), (380, 300)]"
proof -
  have gen: "generate_valid_position [20, 15, 5, 7] [(400, 300), (380, 300), (360, 300)]
               = Some ((100, 140), [])"
    by (simp add: randint_def BLOCK_SIZE_def SCREEN_WIDTH_def SCREEN_HEIGHT_def)
  show ?thesis
    using food_outside_body [of "[20, 15, 5, 7]" "[(400, 300), (380, 300), (360, 300)]"
        "(100, 140)" "[]"
        "\<lparr>snake = Snake_init, food = \<lparr>position = (420, 300)\<rparr>, score = 0, running = True\<rparr>"
        "[]"
        "\<lparr>snake = \<lparr>body = [(420, 300), (400, 300), (380, 300)],
                  direction = RIGHT, grow = True\<rparr>,
          food = \<lparr>position = (100, 140)\<rparr>, score = 1, running = True\<rparr>"]
      gen first_food reachable_after_eating
    by (simp add: Snake_init_def SCREEN_WIDTH_def SCREEN_HEIGHT_def BLOCK_SIZE_def)
qed

text \<open>
  C10. Every position that \<^verbatim>\<open>generate_valid_position\<close> returns is on the grid and on
  the screen: both coordinates are non-negative multiples of the block size, x is at most the
  screen width less one block and y at most the screen height less one block.
\<close>

theorem food_on_grid:
  assumes "generate_valid_position rs b = Some ((x, y), rs')"
  shows "0 \<le> x \<and> x mod BLOCK_SIZE = 0 \<and> x \<le> SCREEN_WIDTH - BLOCK_SIZE
       \<and> 0 \<le> y \<and> y mod BLOCK_SIZE = 0 \<and> y \<le> SCREEN_HEIGHT - BLOCK_SIZE"
proof -
  from generate_Some [OF assms] have "(x, y) \<in> set all_cells" by simp
  then show ?thesis
    by (auto simp: set_all_cells BLOCK_SIZE_def SCREEN_WIDTH_def SCREEN_HEIGHT_def)
qed

theorem food_on_grid_witness:
  "generate_valid_position [39, 29] [] = Some ((780, 580), [])
   \<and> generate_valid_position [-1, 30, 3] [(780, 0)] = None
   \<and> generate_valid_position [40, -1, 7] [] = Some ((0, 580), [7])
   \<and> (780 :: int) mod BLOCK_SIZE = 0 \<and> (780 :: int) \<le> SCREEN_WIDTH - BLOCK_SIZE
   \<and> (580 :: int) mod BLOCK_SIZE = 0 \<and> (580 :: int) \<le> SCREEN_HEIGHT - BLOCK_SIZE"
proof -
  have 1: "generate_valid_position [39, 29] [] = Some ((780, 580), [])"
    by (simp add: randint_def BLOCK_SIZE_def SCREEN_WIDTH_def SCREEN_HEIGHT_def)
  have 2: "generate_valid_position [-1, 30, 3] [(780, 0)] = None"
    by (simp add: randint_def BLOCK_SIZE_def SCREEN_WIDTH_def SCREEN_HEIGHT_def)
  have 3: "generate_valid_position [40, -1, 7] [] = Some ((0, 580), [7])"
    by (simp add: randint_def BLOCK_SIZE_def SCREEN_WIDTH_def SCREEN_HEIGHT_def)
  show ?thesis using food_on_grid [OF 1] food_on_grid [OF 3] 1 2 3 by simp
qed

section \<open>Distinct segments\<close>

text \<open>The snake on the square makes its move, with and without pending growth.\<close>

lemma square_move_growing:
  "move \<lparr>body = [(20, 20), (20, 40), (40, 40), (40, 20)], direction = RIGHT, grow = True\<rparr>
     = Inr \<lparr>body = [(40, 20), (20, 20), (20, 40), (40, 40), (40, 20)],
            direction = RIGHT, grow = False\<rparr>"
  by (simp add: move_def RIGHT_def BLOCK_SIZE_def)

lemma square_move_plain:
  "move \<lparr>body = [(20, 20), (20, 40), (40, 40), (40, 20)], direction = RIGHT, grow = False\<rparr>
     = Inr \<lparr>body = [(40, 20), (20, 20), (20, 40), (40, 40)],
            direction = RIGHT, grow = False\<rparr>"
  by (simp add: move_def RIGHT_def BLOCK_SIZE_def)

text \<open>
  C9. When the segments of the body are pairwise distinct before a move, then after the move
  they are distinct exactly when the new head is not among the segments behind it; so a
  duplicate after the move makes the collision check return true, and a check that returns
  false leaves the segments distinct. In a session: in every state that is still running,
  that is, after updates that have all reported no collision, the segments are pairwise
  distinct, and a state with a duplicate is one in which the check returns true.
\<close>

theorem distinct_or_collision:
  "(distinct (body s) \<and> move s = Inr s' \<longrightarrow>
      (\<exists>c. check_collision s' = Inr c
           \<and> distinct (body s') = (hd (body s') \<notin> set (tl (body s')))
           \<and> (\<not> distinct (body s') \<longrightarrow> c)
           \<and> (\<not> c \<longrightarrow> distinct (body s'))))
   \<and> (reachable g \<longrightarrow>
        (running g \<longrightarrow> distinct (body (snake g)))
        \<and> (\<not> distinct (body (snake g)) \<longrightarrow> check_collision (snake g) = Inr True))"
proof (intro conjI impI)
  assume a: "distinct (body s) \<and> move s = Inr s'"
  then obtain nh where b: "body s' = nh # (if grow s then body s else butlast (body s))"
    by (auto simp: move_Inr)
  from a have "distinct (butlast (body s))" by (simp add: distinct_butlast)
  with a b have d: "distinct (body s') = (nh \<notin> set (tl (body s')))" by simp
  from b obtain c where c: "check_collision s' = Inr c"
    and cv: "c = (nh \<in> set (tl (body s')) \<or> fst nh < 0 \<or> fst nh \<ge> SCREEN_WIDTH
                  \<or> snd nh < 0 \<or> snd nh \<ge> SCREEN_HEIGHT)"
    by (auto simp: check_collision_Inr)
  from b c cv d
  show "\<exists>c. check_collision s' = Inr c
           \<and> distinct (body s') = (hd (body s') \<notin> set (tl (body s')))
           \<and> (\<not> distinct (body s') \<longrightarrow> c)
           \<and> (\<not> c \<longrightarrow> distinct (body s'))"
    by auto
next
  assume r: "reachable g" and "running g"
  with reachable_inv [OF r] show "distinct (body (snake g))"
    by (auto simp: check_collision_Inr)
next
  assume r: "reachable g" and nd: "\<not> distinct (body (snake g))"
  from reachable_inv [OF r] obtain h t where ht: "body (snake g) = h # t" and dt: "distinct t"
    by (cases "body (snake g)") auto
  with nd have "h \<in> set t" by simp
  with ht show "check_collision (snake g) = Inr True"
    by (simp add: check_collision_def)
qed

theorem distinct_or_collision_witness:
  "distinct ([(20, 20), (20, 40), (40, 40), (40, 20)] :: pos list)
   \<and> \<not> distinct ([(40, 20), (20, 20), (20, 40), (40, 40), (40, 20)] :: pos list)
   \<and> check_collision \<lparr>body = [(40, 20), (20, 20), (20, 40), (40, 40), (40, 20)],
                       direction = RIGHT, grow = False\<rparr> = Inr True
   \<and> check_collision \<lparr>body = [(40, 20), (20, 20), (20, 40), (40, 40)],
                       direction = RIGHT, grow = False\<rparr> = Inr False
   \<and> distinct ([(40, 20), (20, 20), (20, 40), (40, 40)] :: pos list)
   \<and> reachable \<lparr>snake = \<lparr>body = [(420, 300), (400, 300), (380, 300)],
                          direction = RIGHT, grow = True\<rparr>,
                food = \<lparr>position = (100, 140)\<rparr>, score = 1, running = True\<rparr>
   \<and> distinct ([(420, 300), (400, 300), (380, 300)] :: pos list)"
  using distinct_or_collision
      [of "\<lparr>body = [(20, 20), (20, 40), (40, 40), (40, 20)], direction = RIGHT, grow = True\<rparr>"
          "\<lparr>body = [(40, 20), (20, 20), (20, 40), (40, 40), (40, 20)],
            direction = RIGHT, grow = False\<rparr>"
          "\<lparr>snake = \<lparr>body = [(420, 300), (400, 300), (380, 300)],
                    direction = RIGHT, grow = True\<rparr>,
            food = \<lparr>position = (100, 140)\<rparr>, score = 1, running = True\<rparr>"]
    distinct_or_collision
      [of "\<lparr>body = [(20, 20), (20, 40), (40, 40), (40, 20)], direction = RIGHT, grow = False\<rparr>"
          "\<lparr>body = [(40, 20), (20, 20), (20, 40), (40, 40)],
            direction = RIGHT, grow = False\<rparr>"]
    square_move_growing square_move_plain reachable_after_eating
  by (simp add: check_collision_def SCREEN_WIDTH_def SCREEN_HEIGHT_def)

section \<open>After the game is over\<close>

lemma run_not_running: "\<not> running g \<Longrightarrow> run frames rs g = Some (Inr (g, rs))"
  by (simp add: run.simps [of frames rs g])

lemma run_result_stopped:
  "run frames rs g = Some (Inr (g', rs')) \<Longrightarrow> \<not> running g'"
proof (induction frames rs g rule: run.induct)
  case (1 frames rs g)
  show ?case
  proof (cases "running g")
    case False
    with "1.prems" show ?thesis by (simp add: run.simps [of frames rs g])
  next
    case True
    with "1.prems" obtain evs rest g1 rs1 where fr: "frames = evs # rest"
      and u: "update rs (handle_input evs g) = Some (Inr (g1, rs1))"
      and r: "run rest rs1 g1 = Some (Inr (g', rs'))"
      by (auto simp: run.simps [of frames rs g] split: list.splits option.splits sum.splits)
    from "1.IH" [OF _ fr u refl refl r] True show ?thesis by simp
  qed
qed

text \<open>
  The snake on the square has run into its own last segment and the game has stopped. One
  more \<^verbatim>\<open>update\<close> on that state; and the frame that led to it, in which the key for
  the opposite direction is ignored.
\<close>

lemma update_after_collision:
  "update [5, 7] \<lparr>snake = \<lparr>body = [(40, 20), (20, 20), (20, 40), (40, 40), (40, 20)],
                             direction = RIGHT, grow = False\<rparr>,
                   food = \<lparr>position = (60, 20)\<rparr>, score = 2, running = False\<rparr>
     = Some (Inr (\<lparr>snake = \<lparr>body = [(60, 20), (40, 20), (20, 20), (20, 40), (40, 40)],
                             direction = RIGHT, grow = True\<rparr>,
                    food = \<lparr>position = (100, 140)\<rparr>, score = 3, running = False\<rparr>, []))"
  by (simp add: update_def move_def check_collision_def Food_init_def
        randint_def RIGHT_def BLOCK_SIZE_def SCREEN_WIDTH_def SCREEN_HEIGHT_def)

lemma collision_frame:
  "update [5, 7] (handle_input [KEYDOWN K_LEFT]
       \<lparr>snake = \<lparr>body = [(20, 20), (20, 40), (40, 40), (40, 20)],
                 direction = RIGHT, grow = True\<rparr>,
         food = \<lparr>position = (60, 20)\<rparr>, score = 2, running = True\<rparr>)
     = Some (Inr (\<lparr>snake = \<lparr>body = [(40, 20), (20, 20), (20, 40), (40, 40), (40, 20)],
                             direction = RIGHT, grow = False\<rparr>,
                    food = \<lparr>position = (60, 20)\<rparr>, score = 2, running = False\<rparr>, [5, 7]))"
  by (simp add: handle_input_def change_direction_def update_def move_def check_collision_def
        LEFT_def RIGHT_def BLOCK_SIZE_def SCREEN_WIDTH_def SCREEN_HEIGHT_def)

text \<open>
  C8, as stated, fails for \<^verbatim>\<open>update\<close>, which does not read \<^verbatim>\<open>running\<close>: called
  on the stopped game it moves the snake onto the food, raises the score and replaces the food.
\<close>

theorem update_after_collision_counterexample:
  "\<not> running \<lparr>snake = \<lparr>body = [(40, 20), (20, 20), (20, 40), (40, 40), (40, 20)],
                         direction = RIGHT, grow = False\<rparr>,
               food = \<lparr>position = (60, 20)\<rparr>, score = 2, running = False\<rparr>
   \<and> check_collision \<lparr>body = [(40, 20), (20, 20), (20, 40), (40, 40), (40, 20)],
                       direction = RIGHT, grow = False\<rparr> = Inr True
   \<and> update [5, 7] \<lparr>snake = \<lparr>body = [(40, 20), (20, 20), (20, 40), (40, 40), (40, 20)],
                               direction = RIGHT, grow = False\<rparr>,
                     food = \<lparr>position = (60, 20)\<rparr>, score = 2, running = False\<rparr>
     = Some (Inr (\<lparr>snake = \<lparr>body = [(60, 20), (40, 20), (20, 20), (20, 40), (40, 40)],
                             direction = RIGHT, grow = True\<rparr>,
                    food = \<lparr>position = (100, 140)\<rparr>, score = 3, running = False\<rparr>, []))
   \<and> ([(60, 20), (40, 20), (20, 20), (20, 40), (40, 40)] :: pos list)
       \<noteq> [(40, 20), (20, 20), (20, 40), (40, 40), (40, 20)]
   \<and> ((100, 140) :: pos) \<noteq> (60, 20)
   \<and> (3 :: int) \<noteq> 2"
  using update_after_collision
  by (simp add: check_collision_def SCREEN_WIDTH_def SCREEN_HEIGHT_def)

text \<open>
  C8, amended. The guard is in the main loop. \<^verbatim>\<open>run\<close> on a game that is not running
  returns at once with the same state and the same random draws, whatever frames are pending;
  the state that \<^verbatim>\<open>run\<close> returns is not running, so running the loop on it again changes
  nothing; and when the update of a frame stops the game, \<^verbatim>\<open>run\<close> returns the state of
  that update and the later frames are not executed.
\<close>

theorem run_stops:
  "(\<not> running g \<longrightarrow> run frames rs g = Some (Inr (g, rs)))
   \<and> (run frames rs g = Some (Inr (g', rs')) \<longrightarrow>
        \<not> running g' \<and> run frames2 rs' g' = Some (Inr (g', rs')))
   \<and> (running g \<and> update rs (handle_input evs g) = Some (Inr (g1, rs1)) \<and> \<not> running g1 \<longrightarrow>
        run (evs # rest) rs g = Some (Inr (g1, rs1)))"
proof (intro conjI impI)
  assume "\<not> running g"
  then show "run frames rs g = Some (Inr (g, rs))" by (rule run_not_running)
next
  assume r: "run frames rs g = Some (Inr (g', rs'))"
  from run_result_stopped [OF r] show "\<not> running g'" .
  from run_result_stopped [OF r] show "run frames2 rs' g' = Some (Inr (g', rs'))"
    by (rule run_not_running)
next
  assume a: "running g \<and> update rs (handle_input evs g) = Some (Inr (g1, rs1)) \<and> \<not> running g1"
  then have "run (evs # rest) rs g = run rest rs1 g1"
    by (simp add: run.simps [of "evs # rest" rs g])
  with a show "run (evs # rest) rs g = Some (Inr (g1, rs1))"
    by (simp add: run_not_running)
qed

theorem run_stops_witness:
  "run [[], [KEYDOWN K_UP]] [5, 7]
      \<lparr>snake = \<lparr>body = [(40, 20), (20, 20), (20, 40), (40, 40), (40, 20)],
                direction = RIGHT, grow = False\<rparr>,
        food = \<lparr>position = (60, 20)\<rparr>, score = 2, running = False\<rparr>
     = Some (Inr (\<lparr>snake = \<lparr>body = [(40, 20), (20, 20), (20, 40), (40, 40), (40, 20)],
                             direction = RIGHT, grow = False\<rparr>,
                    food = \<lparr>position = (60, 20)\<rparr>, score = 2, running = False\<rparr>, [5, 7]))
   \<and> run ([KEYDOWN K_LEFT] # [[], [KEYDOWN K_UP]]) [5, 7]
      \<lparr>snake = \<lparr>body = [(20, 20), (20, 40), (40, 40), (40, 20)],
                direction = RIGHT, grow = True\<rparr>,
        food = \<lparr>position = (60, 20)\<rparr>, score = 2, running = True\<rparr>
     = Some (Inr (\<lparr>snake = \<lparr>body = [(40, 20), (20, 20), (20, 40), (40, 40), (40, 20)],
                             direction = RIGHT, grow = False\<rparr>,
                    food = \<lparr>position = (60, 20)\<rparr>, score = 2, running = False\<rparr>, [5, 7]))"
  using run_stops
      [of "\<lparr>snake = \<lparr>body = [(40, 20), (20, 20), (20, 40), (40, 40), (40, 20)],
                    direction = RIGHT, grow = False\<rparr>,
            food = \<lparr>position = (60, 20)\<rparr>, score = 2, running = False\<rparr>"
          "[[], [KEYDOWN K_UP]]" "[5, 7]"]
    run_stops
      [of "\<lparr>snake = \<lparr>body = [(20, 20), (20, 40), (40, 40), (40, 20)],
                    direction = RIGHT, grow = True\<rparr>,
            food = \<lparr>position = (60, 20)\<rparr>, score = 2, running = True\<rparr>"
          _ "[5, 7]" _ _ _ "[KEYDOWN K_LEFT]"
          "\<lparr>snake = \<lparr>body = [(40, 20), (20, 20), (20, 40), (40, 40), (40, 20)],
                    direction = RIGHT, grow = False\<rparr>,
            food = \<lparr>position = (60, 20)\<rparr>, score = 2, running = False\<rparr>"
          "[5, 7]" "[[], [KEYDOWN K_UP]]"]
    collision_frame
  by simp

section \<open>The full board\<close>

lemma set_if_rev: "set (if c then xs else rev xs) = set xs"
  by simp

lemma set_serpentine: "set serpentine = set all_cells"
  by (simp add: serpentine_def all_cells_def set_if_rev del: set_rev if_split)

lemma serpentine_front: "\<exists>cs. serpentine = (0, 0) # (20, 0) # cs"
  by (simp add: serpentine_def BLOCK_SIZE_def SCREEN_WIDTH_def SCREEN_HEIGHT_def
      upto_rec1 [of 0] upto_rec1 [of 1])

lemma full_board_move:
  "move (snake full_board_game) = Inr \<lparr>body = serpentine, direction = LEFT, grow = False\<rparr>"
proof -
  from serpentine_front obtain cs where e: "serpentine = (0, 0) # (20, 0) # cs" by blast
  show ?thesis
    by (simp add: e full_board_game_def move_def LEFT_def BLOCK_SIZE_def)
qed

lemma update_full_board:
  assumes "move (snake g) = Inr s1" "hd (body s1) = position (food g)"
    "set all_cells \<subseteq> set (body s1)"
  shows "update rs g = None"
  using update_food [OF assms(1,2), of rs] generate_full_board [OF assms(3), of rs]
  by simp

text \<open>
  C7, as stated, fails: on the full board the generator has no result for these draws, and
  neither has the update in which the snake eats the last food. There is no outcome that
  reports the full board.
\<close>

theorem full_board_counterexample:
  "generate_valid_position [0, 0, 39, 29, 17, 3] serpentine = None
   \<and> update [0, 0, 39, 29, 17, 3] full_board_game = None"
proof -
  have s: "set all_cells \<subseteq> set serpentine" by (simp add: set_serpentine)
  have h: "hd serpentine = position (food full_board_game)"
  proof -
    from serpentine_front obtain cs where e: "serpentine = (0, 0) # (20, 0) # cs" by blast
    show ?thesis by (simp add: e full_board_game_def)
  qed
  from s have "generate_valid_position [0, 0, 39, 29, 17, 3] serpentine = None"
    by (rule generate_full_board)
  moreover have "update [0, 0, 39, 29, 17, 3] full_board_game = None"
    by (rule update_full_board [OF full_board_move]) (simp_all add: h s)
  ultimately show ?thesis by simp
qed

text \<open>
  C7, amended. When the body covers every cell of the grid, \<^verbatim>\<open>generate_valid_position\<close>
  returns for no sequence of random draws, however long, and so neither does
  \<^verbatim>\<open>Food.__init__\<close>, nor the \<^verbatim>\<open>update\<close> whose move puts the head on the food and
  fills the grid.
\<close>

theorem full_board_never_returns:
  assumes "set all_cells \<subseteq> set b"
  shows "generate_valid_position rs b = None
       \<and> Food_init rs b = None
       \<and> (move (snake g) = Inr s1 \<and> body s1 = b \<and> hd b = position (food g)
            \<longrightarrow> update rs g = None)"
proof (intro conjI impI)
  show 1: "generate_valid_position rs b = None"
    using assms by (rule generate_full_board)
  then show "Food_init rs b = None" by (simp add: Food_init_def)
next
  assume a: "move (snake g) = Inr s1 \<and> body s1 = b \<and> hd b = position (food g)"
  with assms show "update rs g = None"
    by (intro update_full_board [of g s1]) simp_all
qed

theorem full_board_never_returns_witness:
  "set all_cells \<subseteq> set serpentine
   \<and> move (snake full_board_game) = Inr \<lparr>body = serpentine, direction = LEFT, grow = False\<rparr>
   \<and> hd serpentine = position (food full_board_game)
   \<and> generate_valid_position [5, 7] serpentine = None
   \<and> Food_init [5, 7] serpentine = None
   \<and> update [5, 7] full_board_game = None"
proof -
  have s: "set all_cells \<subseteq> set serpentine" by (simp add: set_serpentine)
  have h: "hd serpentine = position (food full_board_game)"
  proof -
    from serpentine_front obtain cs where e: "serpentine = (0, 0) # (20, 0) # cs" by blast
    show ?thesis by (simp add: e full_board_game_def)
  qed
  show ?thesis
    using full_board_never_returns [OF s, of "[5, 7]" full_board_game
        "\<lparr>body = serpentine, direction = LEFT, grow = False\<rparr>"]
      s h full_board_move
    by simp
qed

end
